theory Spec2Isabelle
  imports Main "HOL-Library.Sublist"
begin

section \<open>The automation library as an environment\<close>

text \<open>
  \<^verbatim>\<open>src/pages/loginPage.ts\<close> is a page object over a browser-automation library. The
  library is not part of the repository, so it is kept abstract: every call the page
  object makes is a value of type \<open>call\<close>, and an environment answers it, from the current
  state of the browser session (the \<open>world\<close>), with either a thrown value or a returned
  value, and a new world. A theorem that quantifies over the environment and the world
  holds for every behaviour of the browser: element present, absent, or gone between two
  calls.
\<close>

text \<open>
  A locator is a deferred query bound to the page that built it:
  \<^verbatim>\<open>page.getByRole(role, { name, exact })\<close> (\<open>exact\<close> is \<open>None\<close> when the option is not
  passed) or \<^verbatim>\<open>page.getByText(text)\<close>.
\<close>

datatype 'p locator =
    GetByRole 'p string string "bool option"
  | GetByText 'p string

text \<open>
  The calls of the source, with the options it passes: \<open>None\<close> is an option left out, so
  that the library's default applies.
\<close>

datatype 'p call =
    PageGoto 'p string "string option"
  | LocatorIsVisible "'p locator"
  | LocatorClick "'p locator"
  | LocatorFill "'p locator" string
  | ExpectToBeVisible "'p locator" "int option"
  | ExpectToBeHidden "'p locator" "int option"

text \<open>
  A thrown JavaScript value is an \<^verbatim>\<open>Error\<close> instance with its \<^verbatim>\<open>message\<close>, or any other
  value, kept as what \<^verbatim>\<open>String(value)\<close> gives. A returned value is \<^verbatim>\<open>undefined\<close> (a
  \<^verbatim>\<open>Promise<void>\<close>) or a boolean.
\<close>

datatype thrown = ErrorInstance string | NonError string

datatype ret = Undefined | Boolean bool

fun truthy :: "ret \<Rightarrow> bool" where
  "truthy Undefined = False"
| "truthy (Boolean b) = b"

text \<open>
  What an observer sees: each library call with its outcome, and each warning logged
  (message and structured payload), in the order they happen.
\<close>

datatype 'p event =
    Called "'p call" "thrown + ret"
  | LoggedWarn string "(string \<times> string) list"

text \<open>
  The environment: the library's answer to a call, and the two constants of
  \<^verbatim>\<open>../src/constants/timeouts\<close> the file reads (\<^verbatim>\<open>TIMEOUTS.MEDIUM\<close>,
  \<^verbatim>\<open>ERROR_MESSAGES.INVALID_LOGIN\<close>), whose values are not in the source and are
  parameters here.
\<close>

record ('w, 'p) environment =
  respond :: "'w \<Rightarrow> 'p call \<Rightarrow> (thrown + ret) \<times> 'w"
  TIMEOUTS_MEDIUM :: int
  ERROR_MESSAGES_INVALID_LOGIN :: string

section \<open>The page object\<close>

text \<open>The seven \<^verbatim>\<open>readonly\<close> fields of \<^verbatim>\<open>class LoginPage\<close>.\<close>

record 'p LoginPage =
  page :: 'p
  loginTab :: "'p locator"
  emailInput :: "'p locator"
  passwordInput :: "'p locator"
  loginButton :: "'p locator"
  errorMessage :: "'p locator"
  startShoppingButton :: "'p locator"

text \<open>
  The state a method runs in: the object itself (\<^verbatim>\<open>this\<close>, here \<open>self\<close>; TypeScript's
  \<^verbatim>\<open>readonly\<close> is checked at compile time only, so the object is part of the state and
  a method could in principle return it changed), the browser session, and the events so
  far.
\<close>

record ('w, 'p) state =
  self :: "'p LoginPage"
  world :: 'w
  events :: "'p event list"

type_synonym ('w, 'p, 'a) action = "('w, 'p) state \<Rightarrow> (thrown + 'a) \<times> ('w, 'p) state"

text \<open>\<^verbatim>\<open>return\<close> at the end of an \<^verbatim>\<open>async\<close> body: the promise resolves.\<close>

definition resolve :: "'a \<Rightarrow> ('w, 'p, 'a) action" where
  "resolve a s = (Inr a, s)"

text \<open>
  \<^verbatim>\<open>const x = await m; rest\<close>: a rejected promise is rethrown at the \<^verbatim>\<open>await\<close> and the
  rest does not run.
\<close>

definition await :: "('w, 'p, 'a) action \<Rightarrow> ('a \<Rightarrow> ('w, 'p, 'b) action) \<Rightarrow> ('w, 'p, 'b) action" where
  "await m rest s = (case m s of (Inl e, s') \<Rightarrow> (Inl e, s') | (Inr a, s') \<Rightarrow> rest a s')"

text \<open>\<^verbatim>\<open>try { body } catch (error) { handler }\<close>.\<close>

definition try_catch :: "('w, 'p, 'a) action \<Rightarrow> (thrown \<Rightarrow> ('w, 'p, 'a) action) \<Rightarrow> ('w, 'p, 'a) action" where
  "try_catch body handler s =
     (case body s of (Inl e, s') \<Rightarrow> handler e s' | (Inr a, s') \<Rightarrow> (Inr a, s'))"

text \<open>A call into the library: the environment answers, and the call is recorded.\<close>

definition library_call :: "('w, 'p) environment \<Rightarrow> 'p call \<Rightarrow> ('w, 'p, ret) action" where
  "library_call env c s =
     (case respond env (world s) c of
        (r, w') \<Rightarrow> (r, s\<lparr>world := w', events := events s @ [Called c r]\<rparr>))"

text \<open>\<^verbatim>\<open>error instanceof Error ? error.message : String(error)\<close>.\<close>

fun error_text :: "thrown \<Rightarrow> string" where
  "error_text (ErrorInstance message) = message"
| "error_text (NonError rendered) = rendered"

text \<open>
  Modelled from the spec: \<^verbatim>\<open>logger.warn\<close> of \<^verbatim>\<open>../src/utils/logger\<close>, which is not in the
  source. The spec: "a warning-level logging call accepting a message and a structured
  error-detail payload". It records the warning and returns.
\<close>

definition logger_warn :: "string \<Rightarrow> (string \<times> string) list \<Rightarrow> ('w, 'p, unit) action" where
  "logger_warn message payload s = (Inr (), s\<lparr>events := events s @ [LoggedWarn message payload]\<rparr>)"

text \<open>
  The constructor (lines 18 to 29). It is given the session as it is and the events so
  far, and returns the state that holds the new object.
\<close>

definition LoginPage_constructor ::
  "('w, 'p) environment \<Rightarrow> 'p \<Rightarrow> 'w \<Rightarrow> 'p event list \<Rightarrow> (thrown + unit) \<times> ('w, 'p) state" where
  "LoginPage_constructor env pg w evs =
     (Inr (),
      \<lparr>self = \<lparr>page = pg,
               loginTab = GetByRole pg ''tab'' ''Log in'' None,
               emailInput = GetByRole pg ''textbox'' ''Email'' None,
               passwordInput = GetByRole pg ''textbox'' ''Password'' None,
               loginButton = GetByRole pg ''button'' ''Log in'' None,
               errorMessage = GetByText pg (ERROR_MESSAGES_INVALID_LOGIN env),
               startShoppingButton = GetByRole pg ''button'' ''Start Shopping'' (Some True)\<rparr>,
       world = w,
       events = evs\<rparr>)"

text \<open>\<^verbatim>\<open>goto\<close> (lines 31 to 33).\<close>

definition goto :: "('w, 'p) environment \<Rightarrow> ('w, 'p, unit) action" where
  "goto env =
     await (\<lambda>s. library_call env (PageGoto (page (self s)) ''/login'' None) s) (\<lambda>_.
     resolve ())"

text \<open>\<^verbatim>\<open>maybeCloseWelcomePopup\<close> (lines 39 to 54).\<close>

definition maybeCloseWelcomePopup :: "('w, 'p) environment \<Rightarrow> ('w, 'p, unit) action" where
  "maybeCloseWelcomePopup env =
     try_catch
       (await (\<lambda>s. library_call env (LocatorIsVisible (startShoppingButton (self s))) s) (\<lambda>isVisible.
        if truthy isVisible then
          await (\<lambda>s. library_call env (LocatorClick (startShoppingButton (self s))) s) (\<lambda>_.
          await (\<lambda>s. library_call env
                   (ExpectToBeHidden (startShoppingButton (self s)) (Some (TIMEOUTS_MEDIUM env))) s) (\<lambda>_.
          resolve ()))
        else resolve ()))
       (\<lambda>error.
          logger_warn ''Welcome popup handling failed'' [(''error'', error_text error)])"

text \<open>\<^verbatim>\<open>login\<close> (lines 62 to 75).\<close>

definition login :: "('w, 'p) environment \<Rightarrow> string \<Rightarrow> string \<Rightarrow> ('w, 'p, unit) action" where
  "login env email password =
     await (\<lambda>s. library_call env
              (PageGoto (page (self s)) ''/login'' (Some ''domcontentloaded'')) s) (\<lambda>_.
     await (maybeCloseWelcomePopup env) (\<lambda>_.
     await (\<lambda>s. library_call env
              (ExpectToBeVisible (loginTab (self s)) (Some (TIMEOUTS_MEDIUM env))) s) (\<lambda>_.
     await (\<lambda>s. library_call env (LocatorClick (loginTab (self s))) s) (\<lambda>_.
     await (\<lambda>s. library_call env
              (ExpectToBeVisible (emailInput (self s)) (Some (TIMEOUTS_MEDIUM env))) s) (\<lambda>_.
     await (\<lambda>s. library_call env (ExpectToBeVisible (passwordInput (self s)) None) s) (\<lambda>_.
     await (\<lambda>s. library_call env (LocatorFill (emailInput (self s)) email) s) (\<lambda>_.
     await (\<lambda>s. library_call env (LocatorFill (passwordInput (self s)) password) s) (\<lambda>_.
     await (\<lambda>s. library_call env (LocatorClick (loginButton (self s))) s) (\<lambda>_.
     resolve ())))))))))"

text \<open>\<^verbatim>\<open>expectErrorVisible\<close> (lines 81 to 83).\<close>

definition expectErrorVisible :: "('w, 'p) environment \<Rightarrow> ('w, 'p, unit) action" where
  "expectErrorVisible env =
     await (\<lambda>s. library_call env
              (ExpectToBeVisible (errorMessage (self s)) (Some (TIMEOUTS_MEDIUM env))) s) (\<lambda>_.
     resolve ())"

text \<open>\<^verbatim>\<open>expectStillOnLoginPage\<close> (lines 89 to 93).\<close>

definition expectStillOnLoginPage :: "('w, 'p) environment \<Rightarrow> ('w, 'p, unit) action" where
  "expectStillOnLoginPage env =
     await (\<lambda>s. library_call env
              (ExpectToBeVisible (loginTab (self s)) (Some (TIMEOUTS_MEDIUM env))) s) (\<lambda>_.
     await (\<lambda>s. library_call env (ExpectToBeVisible (emailInput (self s)) None) s) (\<lambda>_.
     await (\<lambda>s. library_call env (ExpectToBeVisible (passwordInput (self s)) None) s) (\<lambda>_.
     resolve ())))"

section \<open>Reading the events\<close>

text \<open>The events a run added to those of the state it started in.\<close>

definition added :: "('w, 'p) state \<Rightarrow> ('w, 'p) state \<Rightarrow> 'p event list" where
  "added s s' = drop (length (events s)) (events s')"

text \<open>The library calls among some events, in order.\<close>

fun calls_of :: "'p event list \<Rightarrow> 'p call list" where
  "calls_of [] = []"
| "calls_of (Called c r # es) = c # calls_of es"
| "calls_of (LoggedWarn m p # es) = calls_of es"

text \<open>The calls among some events that threw, each with what it threw.\<close>

fun failures_of :: "'p event list \<Rightarrow> ('p call \<times> thrown) list" where
  "failures_of [] = []"
| "failures_of (Called c (Inl e) # es) = (c, e) # failures_of es"
| "failures_of (Called c (Inr r) # es) = failures_of es"
| "failures_of (LoggedWarn m p # es) = failures_of es"

text \<open>The warnings among some events.\<close>

fun warnings_of :: "'p event list \<Rightarrow> (string \<times> (string \<times> string) list) list" where
  "warnings_of [] = []"
| "warnings_of (Called c r # es) = warnings_of es"
| "warnings_of (LoggedWarn m p # es) = (m, p) # warnings_of es"

text \<open>
  The timeouts the source passes explicitly to the waits among some calls (a wait with
  no timeout option has the library's default and gives none).
\<close>

fun explicit_timeouts :: "'p call list \<Rightarrow> int list" where
  "explicit_timeouts [] = []"
| "explicit_timeouts (ExpectToBeVisible l (Some t) # cs) = t # explicit_timeouts cs"
| "explicit_timeouts (ExpectToBeHidden l (Some t) # cs) = t # explicit_timeouts cs"
| "explicit_timeouts (c # cs) = explicit_timeouts cs"

text \<open>The navigations among some calls: the route, and the \<^verbatim>\<open>waitUntil\<close> option passed.\<close>

fun navigations :: "'p call list \<Rightarrow> (string \<times> string option) list" where
  "navigations [] = []"
| "navigations (PageGoto pg url w # cs) = (url, w) # navigations cs"
| "navigations (c # cs) = navigations cs"

text \<open>
  What "propagated unchanged, no retry, no recovery" says of the result of an operation
  and the events \<open>es\<close> it added: no warning was logged in place of an error; the operation
  returns normally only if no call failed; and when it raises \<open>e\<close>, the last thing it did
  is the call that threw \<open>e\<close>, and no call before that one had failed, so that nothing was
  attempted again or instead.
\<close>

fun raised_by :: "'p event \<Rightarrow> thrown \<Rightarrow> bool" where
  "raised_by (Called c r) e = (r = Inl e)"
| "raised_by (LoggedWarn m p) e = False"

definition propagated :: "thrown + unit \<Rightarrow> 'p event list \<Rightarrow> bool" where
  "propagated result es =
     (warnings_of es = [] \<and>
      (case result of
         Inr u \<Rightarrow> failures_of es = []
       | Inl e \<Rightarrow> es \<noteq> [] \<and> raised_by (last es) e \<and> failures_of (butlast es) = []))"

text \<open>The fields of type \<^verbatim>\<open>Locator\<close> (lines 11 to 16), in the order of their declaration.\<close>

definition locators_of :: "'p LoginPage \<Rightarrow> 'p locator list" where
  "locators_of lp =
     [loginTab lp, emailInput lp, passwordInput lp, loginButton lp, errorMessage lp,
      startShoppingButton lp]"

text \<open>A locator built with \<^verbatim>\<open>exact: true\<close>.\<close>

fun exact_name :: "'p locator \<Rightarrow> bool" where
  "exact_name (GetByRole pg r n ex) = (ex = Some True)"
| "exact_name (GetByText pg t) = False"

section \<open>Straight-line runs\<close>

text \<open>
  A device for the proofs, not a function of the source: the calls of a list made one
  after the other, each awaited, the first rejection ending the run. The bodies of the
  methods without a \<^verbatim>\<open>try\<close> are shown below to be such runs.
\<close>

fun run_calls :: "('w, 'p) environment \<Rightarrow> 'p call list \<Rightarrow> ('w, 'p, unit) action" where
  "run_calls env [] s = (Inr (), s)"
| "run_calls env (c # cs) s =
     (case library_call env c s of (Inl e, s') \<Rightarrow> (Inl e, s') | (Inr r, s') \<Rightarrow> run_calls env cs s')"

text \<open>The seven calls of \<^verbatim>\<open>login\<close> after the popup is handled (lines 68 to 74).\<close>

definition login_steps :: "int \<Rightarrow> 'p LoginPage \<Rightarrow> string \<Rightarrow> string \<Rightarrow> 'p call list" where
  "login_steps medium lp email password =
     [ExpectToBeVisible (loginTab lp) (Some medium),
      LocatorClick (loginTab lp),
      ExpectToBeVisible (emailInput lp) (Some medium),
      ExpectToBeVisible (passwordInput lp) None,
      LocatorFill (emailInput lp) email,
      LocatorFill (passwordInput lp) password,
      LocatorClick (loginButton lp)]"

section \<open>Environments to run the page object in\<close>

text \<open>
  A scripted session: the world is the list of outcomes still to come, and each call
  takes the next one; once the list is empty every call returns \<^verbatim>\<open>undefined\<close>.
\<close>

fun scripted_respond :: "(thrown + ret) list \<Rightarrow> 'p call \<Rightarrow> (thrown + ret) \<times> (thrown + ret) list" where
  "scripted_respond [] c = (Inr Undefined, [])"
| "scripted_respond (r # rs) c = (r, rs)"

definition scripted :: "((thrown + ret) list, nat) environment" where
  "scripted = \<lparr>respond = scripted_respond, TIMEOUTS_MEDIUM = 10000,
               ERROR_MESSAGES_INVALID_LOGIN = ''Invalid email or password''\<rparr>"

text \<open>The state right after \<^verbatim>\<open>new LoginPage(page)\<close> on page 0 of a scripted session.\<close>

definition fresh :: "(thrown + ret) list \<Rightarrow> ((thrown + ret) list, nat) state" where
  "fresh script = snd (LoginPage_constructor scripted 0 script [])"

text \<open>
  A static page, for the two claims that speak of what the library does with a page. It
  is a model of the library's documented contract, not of code of the repository: a page
  is its elements (role, accessible name, text, visibility) and whether its \<^verbatim>\<open>load\<close>
  event fires before the navigation times out. Nothing the page object does changes the
  page.

  \<^item> \<^verbatim>\<open>getByRole\<close> with \<^verbatim>\<open>exact: true\<close> matches an element of that role whose accessible
    name is the given string, whole and case-sensitive; without it, an element whose
    name contains the string, whatever the case. \<^verbatim>\<open>getByText\<close> without \<^verbatim>\<open>exact\<close> matches
    the same way on the text.
  \<^item> \<^verbatim>\<open>page.goto\<close> waits for the \<^verbatim>\<open>load\<close> event unless \<^verbatim>\<open>waitUntil\<close> names an earlier
    one (\<^verbatim>\<open>domcontentloaded\<close>, \<^verbatim>\<open>commit\<close>).
  \<^item> \<^verbatim>\<open>isVisible\<close> answers at once; a click, a fill and a visibility wait need a visible
    match, a hidden-wait needs none, and they reject with a timeout error otherwise.
\<close>

record element =
  el_role :: string
  el_name :: string
  el_text :: string
  el_visible :: bool

record browser =
  elements :: "element list"
  load_fires :: bool

definition lower :: "char \<Rightarrow> char" where
  "lower c =
     (case map_of (zip ''ABCDEFGHIJKLMNOPQRSTUVWXYZ'' ''abcdefghijklmnopqrstuvwxyz'') c of
        None \<Rightarrow> c
      | Some d \<Rightarrow> d)"

fun starts_with :: "string \<Rightarrow> string \<Rightarrow> bool" where
  "starts_with [] ys = True"
| "starts_with (x # xs) [] = False"
| "starts_with (x # xs) (y # ys) = (x = y \<and> starts_with xs ys)"

fun contains :: "string \<Rightarrow> string \<Rightarrow> bool" where
  "contains xs [] = (xs = [])"
| "contains xs (y # ys) = (starts_with xs (y # ys) \<or> contains xs ys)"

definition contains_ci :: "string \<Rightarrow> string \<Rightarrow> bool" where
  "contains_ci wanted actual = contains (map lower wanted) (map lower actual)"

fun name_matches :: "bool option \<Rightarrow> string \<Rightarrow> string \<Rightarrow> bool" where
  "name_matches (Some True) wanted actual = (actual = wanted)"
| "name_matches ex wanted actual = contains_ci wanted actual"

fun matches :: "'p locator \<Rightarrow> element \<Rightarrow> bool" where
  "matches (GetByRole pg r n ex) e = (el_role e = r \<and> name_matches ex n (el_name e))"
| "matches (GetByText pg t) e = contains_ci t (el_text e)"

definition shown :: "browser \<Rightarrow> 'p locator \<Rightarrow> bool" where
  "shown b l = list_ex (\<lambda>e. matches l e \<and> el_visible e) (elements b)"

definition need :: "bool \<Rightarrow> string \<Rightarrow> thrown + ret" where
  "need ok what = (if ok then Inr Undefined else Inl (ErrorInstance what))"

fun static_respond :: "browser \<Rightarrow> 'p call \<Rightarrow> (thrown + ret) \<times> browser" where
  "static_respond b (PageGoto pg url w) =
     (need (load_fires b \<or> w = Some ''domcontentloaded'' \<or> w = Some ''commit'')
        ''page.goto: Timeout exceeded'', b)"
| "static_respond b (LocatorIsVisible l) = (Inr (Boolean (shown b l)), b)"
| "static_respond b (LocatorClick l) = (need (shown b l) ''locator.click: Timeout exceeded'', b)"
| "static_respond b (LocatorFill l v) = (need (shown b l) ''locator.fill: Timeout exceeded'', b)"
| "static_respond b (ExpectToBeVisible l t) =
     (need (shown b l) ''expect.toBeVisible: Timeout exceeded'', b)"
| "static_respond b (ExpectToBeHidden l t) =
     (need (\<not> shown b l) ''expect.toBeHidden: Timeout exceeded'', b)"

definition static_page :: "(browser, nat) environment" where
  "static_page = \<lparr>respond = static_respond, TIMEOUTS_MEDIUM = 10000,
                   ERROR_MESSAGES_INVALID_LOGIN = ''Invalid email or password''\<rparr>"

text \<open>A login form: the four controls the page object drives, all visible.\<close>

definition login_form :: "element list" where
  "login_form =
     [\<lparr>el_role = ''tab'', el_name = ''Log in'', el_text = ''Log in'', el_visible = True\<rparr>,
      \<lparr>el_role = ''textbox'', el_name = ''Email'', el_text = '''', el_visible = True\<rparr>,
      \<lparr>el_role = ''textbox'', el_name = ''Password'', el_text = '''', el_visible = True\<rparr>,
      \<lparr>el_role = ''button'', el_name = ''Log in'', el_text = ''Log in'', el_visible = True\<rparr>]"

text \<open>The state right after \<^verbatim>\<open>new LoginPage(page)\<close> on page 0 of a browser on a static page.\<close>

definition opened :: "browser \<Rightarrow> (browser, nat) state" where
  "opened b = snd (LoginPage_constructor static_page 0 b [])"

section \<open>Facts about runs\<close>

lemmas run_defs = await_def try_catch_def library_call_def resolve_def logger_warn_def

lemma library_call_self: "library_call env c s = (r, s') \<Longrightarrow> self s' = self s"
  by (auto simp: library_call_def split: prod.splits)

lemma library_call_events:
  "library_call env c s = (r, s') \<Longrightarrow> events s' = events s @ [Called c r]"
  by (auto simp: library_call_def split: prod.splits)

lemma added_same: "added s s = []"
  by (simp add: added_def)

lemma added_extended: "events s' = events s @ es \<Longrightarrow> added s s' = es"
  by (simp add: added_def)

lemma maybe_self: "maybeCloseWelcomePopup env s = (r, s') \<Longrightarrow> self s' = self s"
  by (auto simp: maybeCloseWelcomePopup_def run_defs split: prod.splits sum.splits if_splits)

lemma maybe_returns: "fst (maybeCloseWelcomePopup env s) = Inr ()"
  by (simp add: maybeCloseWelcomePopup_def run_defs split: prod.splits sum.splits)

lemma maybe_extends:
  "events (snd (maybeCloseWelcomePopup env s)) =
     events s @ added s (snd (maybeCloseWelcomePopup env s))"
  by (simp add: maybeCloseWelcomePopup_def run_defs added_def split: prod.splits sum.splits)

lemma run_calls_self: "self (snd (run_calls env cs s)) = self s"
  by (induction cs arbitrary: s) (auto split: prod.splits sum.splits dest: library_call_self)

lemma run_calls_trace:
  "\<exists>es. events (snd (run_calls env cs s)) = events s @ es \<and>
        warnings_of es = [] \<and>
        prefix (calls_of es) cs \<and>
        (case fst (run_calls env cs s) of
           Inr u \<Rightarrow> calls_of es = cs \<and> failures_of es = []
         | Inl e \<Rightarrow> \<exists>pre c. es = pre @ [Called c (Inl e)] \<and> failures_of pre = [])"
proof (induction cs arbitrary: s)
  case Nil
  show ?case by simp
next
  case (Cons c cs)
  obtain r s1 where call: "library_call env c s = (r, s1)"
    by (cases "library_call env c s")
  have ev: "events s1 = events s @ [Called c r]"
    using call by (rule library_call_events)
  show ?case
  proof (cases r)
    case (Inl e)
    have "events (snd (run_calls env (c # cs) s)) = events s @ [Called c (Inl e)]"
      using call Inl ev by simp
    moreover have "fst (run_calls env (c # cs) s) = Inl e"
      using call Inl by simp
    moreover have "\<exists>pre c'. [Called c (Inl e)] = pre @ [Called c' (Inl e)] \<and> failures_of pre = []"
      by (intro exI [of _ "[]"] exI [of _ c]) simp
    ultimately show ?thesis
      by (intro exI [of _ "[Called c (Inl e)]"]) simp
  next
    case (Inr v)
    from Cons.IH [of s1] obtain es where
      es: "events (snd (run_calls env cs s1)) = events s1 @ es" "warnings_of es = []"
        "prefix (calls_of es) cs"
        "case fst (run_calls env cs s1) of
           Inr u \<Rightarrow> calls_of es = cs \<and> failures_of es = []
         | Inl e \<Rightarrow> \<exists>pre c. es = pre @ [Called c (Inl e)] \<and> failures_of pre = []"
      by blast
    have run: "run_calls env (c # cs) s = run_calls env cs s1"
      using call Inr by simp
    have "events (snd (run_calls env (c # cs) s)) = events s @ (Called c (Inr v) # es)"
      using run es(1) ev Inr by simp
    moreover have "warnings_of (Called c (Inr v) # es) = []"
      using es(2) by simp
    moreover have "prefix (calls_of (Called c (Inr v) # es)) (c # cs)"
      using es(3) by simp
    moreover have "case fst (run_calls env (c # cs) s) of
           Inr u \<Rightarrow> calls_of (Called c (Inr v) # es) = c # cs \<and> failures_of (Called c (Inr v) # es) = []
         | Inl e \<Rightarrow> \<exists>pre c'. Called c (Inr v) # es = pre @ [Called c' (Inl e)] \<and> failures_of pre = []"
    proof (cases "fst (run_calls env cs s1)")
      case (Inl e)
      with es(4) obtain pre c' where "es = pre @ [Called c' (Inl e)]" "failures_of pre = []"
        by auto
      then have "Called c (Inr v) # es = (Called c (Inr v) # pre) @ [Called c' (Inl e)] \<and>
          failures_of (Called c (Inr v) # pre) = []"
        by simp
      then show ?thesis using run Inl by (simp del: append_Cons)
    next
      case (Inr u)
      with es(4) run show ?thesis by simp
    qed
    ultimately show ?thesis by blast
  qed
qed

lemma goto_run: "goto env s = run_calls env [PageGoto (page (self s)) ''/login'' None] s"
  by (simp add: goto_def await_def resolve_def split: prod.splits sum.splits)

lemma expectErrorVisible_run:
  "expectErrorVisible env s =
     run_calls env [ExpectToBeVisible (errorMessage (self s)) (Some (TIMEOUTS_MEDIUM env))] s"
  by (simp add: expectErrorVisible_def await_def resolve_def split: prod.splits sum.splits)

lemma expectStillOnLoginPage_run:
  "expectStillOnLoginPage env s =
     run_calls env
       [ExpectToBeVisible (loginTab (self s)) (Some (TIMEOUTS_MEDIUM env)),
        ExpectToBeVisible (emailInput (self s)) None,
        ExpectToBeVisible (passwordInput (self s)) None] s"
  by (simp add: expectStillOnLoginPage_def run_defs split: prod.splits sum.splits)

lemma login_rest_run:
  "await (\<lambda>s. library_call env
              (ExpectToBeVisible (loginTab (self s)) (Some (TIMEOUTS_MEDIUM env))) s) (\<lambda>_.
     await (\<lambda>s. library_call env (LocatorClick (loginTab (self s))) s) (\<lambda>_.
     await (\<lambda>s. library_call env
              (ExpectToBeVisible (emailInput (self s)) (Some (TIMEOUTS_MEDIUM env))) s) (\<lambda>_.
     await (\<lambda>s. library_call env (ExpectToBeVisible (passwordInput (self s)) None) s) (\<lambda>_.
     await (\<lambda>s. library_call env (LocatorFill (emailInput (self s)) email) s) (\<lambda>_.
     await (\<lambda>s. library_call env (LocatorFill (passwordInput (self s)) password) s) (\<lambda>_.
     await (\<lambda>s. library_call env (LocatorClick (loginButton (self s))) s) (\<lambda>_.
     resolve ()))))))) s = run_calls env (login_steps (TIMEOUTS_MEDIUM env) (self s) email password) s"
  by (simp add: login_steps_def run_defs split: prod.splits sum.splits)

lemma login_run:
  "login env email password s =
     (case library_call env (PageGoto (page (self s)) ''/login'' (Some ''domcontentloaded'')) s of
        (Inl e, s1) \<Rightarrow> (Inl e, s1)
      | (Inr r, s1) \<Rightarrow>
          run_calls env (login_steps (TIMEOUTS_MEDIUM env) (self s) email password)
            (snd (maybeCloseWelcomePopup env s1)))"
proof -
  have "login env email password s =
     (case library_call env (PageGoto (page (self s)) ''/login'' (Some ''domcontentloaded'')) s of
        (Inl e, s1) \<Rightarrow> (Inl e, s1)
      | (Inr r, s1) \<Rightarrow>
          (case maybeCloseWelcomePopup env s1 of
             (Inl e, s2) \<Rightarrow> (Inl e, s2)
           | (Inr u, s2) \<Rightarrow> run_calls env (login_steps (TIMEOUTS_MEDIUM env) (self s2) email password) s2))"
    unfolding login_def
    apply (subst await_def)
    apply (subst await_def)
    apply (simp only: login_rest_run)
    done
  also have "\<dots> = (case library_call env (PageGoto (page (self s)) ''/login'' (Some ''domcontentloaded'')) s of
        (Inl e, s1) \<Rightarrow> (Inl e, s1)
      | (Inr r, s1) \<Rightarrow>
          run_calls env (login_steps (TIMEOUTS_MEDIUM env) (self s) email password)
            (snd (maybeCloseWelcomePopup env s1)))"
  proof (cases "library_call env (PageGoto (page (self s)) ''/login'' (Some ''domcontentloaded'')) s")
    case (Pair r s1)
    have a: "self s1 = self s" using Pair by (rule library_call_self)
    obtain s2 where m: "maybeCloseWelcomePopup env s1 = (Inr (), s2)"
      using maybe_returns [of env s1] by (cases "maybeCloseWelcomePopup env s1") auto
    have b: "self s2 = self s1" using m by (rule maybe_self)
    show ?thesis using Pair a b m by (simp split: sum.splits)
  qed
  finally show ?thesis .
qed

lemma calls_of_append: "calls_of (xs @ ys) = calls_of xs @ calls_of ys"
  by (induction xs rule: calls_of.induct) simp_all

lemma failures_of_append: "failures_of (xs @ ys) = failures_of xs @ failures_of ys"
  by (induction xs rule: failures_of.induct) simp_all

lemma warnings_of_append: "warnings_of (xs @ ys) = warnings_of xs @ warnings_of ys"
  by (induction xs rule: warnings_of.induct) simp_all

lemma explicit_timeouts_append:
  "explicit_timeouts (xs @ ys) = explicit_timeouts xs @ explicit_timeouts ys"
  by (induction xs rule: explicit_timeouts.induct) simp_all

lemma explicit_timeouts_prefix:
  "prefix xs ys \<Longrightarrow> set (explicit_timeouts xs) \<subseteq> set (explicit_timeouts ys)"
  by (auto simp: prefix_def explicit_timeouts_append)

text \<open>What a straight-line run added, read off \<open>run_calls_trace\<close>.\<close>

lemma run_calls_added:
  fixes env :: "('w, 'p) environment" and cs s
  defines "es \<equiv> added s (snd (run_calls env cs s))"
  shows "events (snd (run_calls env cs s)) = events s @ es"
    and "warnings_of es = []"
    and "prefix (calls_of es) cs"
    and "fst (run_calls env cs s) = Inr u \<Longrightarrow> calls_of es = cs \<and> failures_of es = []"
    and "fst (run_calls env cs s) = Inl e \<Longrightarrow>
           \<exists>pre c. es = pre @ [Called c (Inl e)] \<and> failures_of pre = []"
proof -
  from run_calls_trace [of env cs s] obtain es' where
    t: "events (snd (run_calls env cs s)) = events s @ es'" "warnings_of es' = []"
      "prefix (calls_of es') cs"
      "case fst (run_calls env cs s) of
         Inr u \<Rightarrow> calls_of es' = cs \<and> failures_of es' = []
       | Inl e \<Rightarrow> \<exists>pre c. es' = pre @ [Called c (Inl e)] \<and> failures_of pre = []"
    by blast
  have eq: "es = es'"
    unfolding es_def using t(1) by (rule added_extended)
  show "events (snd (run_calls env cs s)) = events s @ es" using t(1) eq by simp
  show "warnings_of es = []" using t(2) eq by simp
  show "prefix (calls_of es) cs" using t(3) eq by simp
  show "fst (run_calls env cs s) = Inr u \<Longrightarrow> calls_of es = cs \<and> failures_of es = []"
    using t(4) eq by simp
  show "fst (run_calls env cs s) = Inl e \<Longrightarrow>
           \<exists>pre c. es = pre @ [Called c (Inl e)] \<and> failures_of pre = []"
    using t(4) eq by simp
qed

lemma run_calls_propagated:
  "propagated (fst (run_calls env cs s)) (added s (snd (run_calls env cs s)))"
proof (cases "fst (run_calls env cs s)")
  case (Inl e)
  from run_calls_added(5) [OF Inl] obtain pre c where
    "added s (snd (run_calls env cs s)) = pre @ [Called c (Inl e)]" "failures_of pre = []"
    by blast
  with Inl run_calls_added(2) [where s = s and env = env and cs = cs] show ?thesis
    by (simp add: propagated_def)
next
  case (Inr u)
  with run_calls_added(4) [OF Inr] run_calls_added(2) [where s = s and env = env and cs = cs] show ?thesis
    by (simp add: propagated_def)
qed

lemma maybe_calls:
  "prefix (calls_of (added s (snd (maybeCloseWelcomePopup env s))))
     [LocatorIsVisible (startShoppingButton (self s)),
      LocatorClick (startShoppingButton (self s)),
      ExpectToBeHidden (startShoppingButton (self s)) (Some (TIMEOUTS_MEDIUM env))]"
  by (simp add: maybeCloseWelcomePopup_def run_defs added_def split: prod.splits sum.splits)

text \<open>The events of \<open>login\<close>: the navigation, then the popup dismissal, then the seven steps.\<close>

lemma login_trace:
  fixes env :: "('w, 'p) environment" and s s1 email password
  assumes "library_call env (PageGoto (page (self s)) ''/login'' (Some ''domcontentloaded'')) s = (r0, s1)"
  defines "s2 \<equiv> snd (maybeCloseWelcomePopup env s1)"
  defines "s' \<equiv> snd (login env email password s)"
  shows "r0 = Inl e \<Longrightarrow> login env email password s = (Inl e, s1)"
    and "added s s1 = [Called (PageGoto (page (self s)) ''/login'' (Some ''domcontentloaded'')) r0]"
    and "r0 = Inr v \<Longrightarrow>
           login env email password s =
             run_calls env (login_steps (TIMEOUTS_MEDIUM env) (self s) email password) s2"
    and "r0 = Inr v \<Longrightarrow>
           added s s' =
             Called (PageGoto (page (self s)) ''/login'' (Some ''domcontentloaded'')) r0 #
             added s1 s2 @ added s2 s'"
    and "self s1 = self s"
proof -
  note ev1 = library_call_events [OF assms(1)]
  show "r0 = Inl e \<Longrightarrow> login env email password s = (Inl e, s1)"
    using assms(1) by (simp add: login_run)
  show "added s s1 = [Called (PageGoto (page (self s)) ''/login'' (Some ''domcontentloaded'')) r0]"
    using ev1 by (rule added_extended)
  show run: "r0 = Inr v \<Longrightarrow>
           login env email password s =
             run_calls env (login_steps (TIMEOUTS_MEDIUM env) (self s) email password) s2"
    using assms(1) by (simp add: login_run s2_def)
  show "self s1 = self s" using assms(1) by (rule library_call_self)
  show "added s s' =
          Called (PageGoto (page (self s)) ''/login'' (Some ''domcontentloaded'')) r0 #
          added s1 s2 @ added s2 s'" if "r0 = Inr v"
  proof -
    have ev2: "events s2 = events s1 @ added s1 s2"
      unfolding s2_def by (rule maybe_extends)
    have "events s' = events s2 @ added s2 s'"
      unfolding s'_def run [OF that] by (rule run_calls_added(1))
    with ev1 ev2 have "events s' = events s @
        (Called (PageGoto (page (self s)) ''/login'' (Some ''domcontentloaded'')) r0 #
         added s1 s2 @ added s2 s')"
      by simp
    then show ?thesis by (rule added_extended)
  qed
qed

text \<open>The calls of \<open>login\<close>, whatever the session answers.\<close>

lemma login_calls:
  fixes env :: "('w, 'p) environment" and s email password
  defines "lp \<equiv> self s"
  defines "s1 \<equiv> snd (library_call env (PageGoto (page lp) ''/login'' (Some ''domcontentloaded'')) s)"
  defines "popup \<equiv> calls_of (added s1 (snd (maybeCloseWelcomePopup env s1)))"
  defines "calls \<equiv> calls_of (added s (snd (login env email password s)))"
  defines "sequence \<equiv>
     PageGoto (page lp) ''/login'' (Some ''domcontentloaded'') #
     popup @
     [ExpectToBeVisible (loginTab lp) (Some (TIMEOUTS_MEDIUM env)),
      LocatorClick (loginTab lp),
      ExpectToBeVisible (emailInput lp) (Some (TIMEOUTS_MEDIUM env)),
      ExpectToBeVisible (passwordInput lp) None,
      LocatorFill (emailInput lp) email,
      LocatorFill (passwordInput lp) password,
      LocatorClick (loginButton lp)]"
  shows "prefix popup
           [LocatorIsVisible (startShoppingButton lp),
            LocatorClick (startShoppingButton lp),
            ExpectToBeHidden (startShoppingButton lp) (Some (TIMEOUTS_MEDIUM env))] \<and>
         prefix calls sequence \<and>
         (fst (login env email password s) = Inr () \<longrightarrow> calls = sequence)"
proof -
  obtain r0 t1 where call:
    "library_call env (PageGoto (page (self s)) ''/login'' (Some ''domcontentloaded'')) s = (r0, t1)"
    by (cases "library_call env (PageGoto (page (self s)) ''/login'' (Some ''domcontentloaded'')) s")
  have t1: "t1 = s1" using call by (simp add: s1_def lp_def)
  note tr = login_trace [OF call]
  let ?s2 = "snd (maybeCloseWelcomePopup env s1)"
  let ?s' = "snd (login env email password s)"
  let ?steps = "login_steps (TIMEOUTS_MEDIUM env) (self s) email password"
  have seq: "sequence = PageGoto (page lp) ''/login'' (Some ''domcontentloaded'') # popup @ ?steps"
    by (simp add: sequence_def login_steps_def lp_def)
  have p: "prefix popup
           [LocatorIsVisible (startShoppingButton lp),
            LocatorClick (startShoppingButton lp),
            ExpectToBeHidden (startShoppingButton lp) (Some (TIMEOUTS_MEDIUM env))]"
    using maybe_calls [where s = s1 and env = env] tr(5) t1 by (simp add: popup_def lp_def)
  have "prefix calls sequence \<and> (fst (login env email password s) = Inr () \<longrightarrow> calls = sequence)"
  proof (cases r0)
    case (Inl e)
    have "login env email password s = (Inl e, s1)"
      using tr(1) [OF Inl] t1 by simp
    then have "calls = [PageGoto (page lp) ''/login'' (Some ''domcontentloaded'')]"
      using tr(2) t1 by (simp add: calls_def lp_def)
    moreover have "fst (login env email password s) \<noteq> Inr ()"
      using tr(1) [OF Inl] by simp
    ultimately show ?thesis by (simp add: seq)
  next
    case (Inr v)
    have run: "login env email password s = run_calls env ?steps ?s2"
      using tr(3) [OF Inr] t1 by simp
    have "added s ?s' =
        Called (PageGoto (page (self s)) ''/login'' (Some ''domcontentloaded'')) r0 #
        added s1 ?s2 @ added ?s2 ?s'"
      using tr(4) [OF Inr] t1 by simp
    then have c: "calls =
        PageGoto (page lp) ''/login'' (Some ''domcontentloaded'') # popup @ calls_of (added ?s2 ?s')"
      by (simp add: calls_def popup_def lp_def calls_of_append)
    have "prefix (calls_of (added ?s2 ?s')) ?steps"
      unfolding run by (rule run_calls_added(3))
    moreover have "calls_of (added ?s2 ?s') = ?steps" if "fst (login env email password s) = Inr ()"
      using run_calls_added(4) [where env = env and cs = ?steps and s = ?s2 and u = "()"] that unfolding run by simp
    ultimately show ?thesis by (simp add: c seq)
  qed
  with p show ?thesis by simp
qed

lemma navigations_append: "navigations (xs @ ys) = navigations xs @ navigations ys"
  by (induction xs rule: navigations.induct) simp_all

lemma navigations_prefix: "prefix xs ys \<Longrightarrow> navigations ys = [] \<Longrightarrow> navigations xs = []"
  by (auto simp: prefix_def navigations_append)

lemma goto_calls:
  "calls_of (added s (snd (goto env s))) = [PageGoto (page (self s)) ''/login'' None]"
  by (simp add: goto_def run_defs added_def split: prod.splits sum.splits)

lemma expectErrorVisible_calls:
  "calls_of (added s (snd (expectErrorVisible env s))) =
     [ExpectToBeVisible (errorMessage (self s)) (Some (TIMEOUTS_MEDIUM env))]"
  by (simp add: expectErrorVisible_def run_defs added_def split: prod.splits sum.splits)

lemma expectStillOnLoginPage_calls:
  "prefix (calls_of (added s (snd (expectStillOnLoginPage env s))))
     [ExpectToBeVisible (loginTab (self s)) (Some (TIMEOUTS_MEDIUM env)),
      ExpectToBeVisible (emailInput (self s)) None,
      ExpectToBeVisible (passwordInput (self s)) None]"
  unfolding expectStillOnLoginPage_run by (rule run_calls_added(3))

text \<open>The two cases of \<open>login\<close>: the navigation failed, or it returned.\<close>

lemma login_cases:
  fixes env :: "('w, 'p) environment" and s email password
  defines "nav \<equiv> PageGoto (page (self s)) ''/login'' (Some ''domcontentloaded'')"
  defines "s1 \<equiv> snd (library_call env nav s)"
  defines "s2 \<equiv> snd (maybeCloseWelcomePopup env s1)"
  defines "s' \<equiv> snd (login env email password s)"
  obtains (navigation_failed) e where
      "fst (library_call env nav s) = Inl e"
      "login env email password s = (Inl e, s1)"
      "added s s1 = [Called nav (Inl e)]"
      "added s s' = [Called nav (Inl e)]"
    | (navigated) v where
      "fst (library_call env nav s) = Inr v"
      "added s s' = Called nav (Inr v) # added s1 s2 @ added s2 s'"
      "login env email password s =
         run_calls env (login_steps (TIMEOUTS_MEDIUM env) (self s) email password) s2"
      "self s1 = self s"
proof -
  obtain r0 t1 where call: "library_call env nav s = (r0, t1)"
    by (cases "library_call env nav s")
  have t1: "t1 = s1" using call by (simp add: s1_def)
  note tr = login_trace [OF call [unfolded nav_def], folded nav_def]
  show thesis
  proof (cases r0)
    case (Inl e)
    have l: "login env email password s = (Inl e, s1)"
      using tr(1) [OF Inl] t1 by simp
    have a: "added s s1 = [Called nav (Inl e)]"
      using tr(2) t1 Inl by simp
    have "added s s' = [Called nav (Inl e)]"
      using a l by (simp add: s'_def)
    with l a call Inl show thesis
      by (intro navigation_failed [of e]) simp_all
  next
    case (Inr v)
    have "added s s' = Called nav (Inr v) # added s1 s2 @ added s2 s'"
      using tr(4) [OF Inr, of email password] t1 Inr by (simp add: s'_def s2_def)
    moreover have "login env email password s =
         run_calls env (login_steps (TIMEOUTS_MEDIUM env) (self s) email password) s2"
      using tr(3) [OF Inr] t1 by (simp add: s2_def)
    moreover have "self s1 = self s" using tr(5) t1 by simp
    ultimately show thesis
      using call Inr by (intro navigated [of v]) simp_all
  qed
qed


lemma maybe_timeouts:
  "set (explicit_timeouts (calls_of (added s (snd (maybeCloseWelcomePopup env s))))) \<subseteq>
     {TIMEOUTS_MEDIUM env}"
  using explicit_timeouts_prefix [OF maybe_calls [of s env]] by simp

lemma maybe_length: "length (calls_of (added s (snd (maybeCloseWelcomePopup env s)))) \<le> 3"
  using prefix_length_le [OF maybe_calls [of s env]] by simp

lemma login_steps_timeouts:
  "prefix cs (login_steps m lp email password) \<Longrightarrow> set (explicit_timeouts cs) \<subseteq> {m}"
  using explicit_timeouts_prefix [of cs "login_steps m lp email password"]
  by (simp add: login_steps_def)

lemma login_steps_length: "prefix cs (login_steps m lp email password) \<Longrightarrow> length cs \<le> 7"
  using prefix_length_le [of cs "login_steps m lp email password"]
  by (simp add: login_steps_def)

lemma login_navigations:
  "navigations (calls_of (added s (snd (login env email password s)))) =
     [(''/login'', Some ''domcontentloaded'')]"
proof (cases rule: login_cases [of env s email password])
  case (navigation_failed e)
  then show ?thesis by simp
next
  case (navigated v)
  let ?s1 = "snd (library_call env (PageGoto (page (self s)) ''/login'' (Some ''domcontentloaded'')) s)"
  let ?s2 = "snd (maybeCloseWelcomePopup env ?s1)"
  have "navigations (calls_of (added ?s1 ?s2)) = []"
    using maybe_calls [of ?s1 env] by (rule navigations_prefix) simp
  moreover have "navigations (calls_of (added ?s2 (snd (login env email password s)))) = []"
  proof (rule navigations_prefix)
    show "prefix (calls_of (added ?s2 (snd (login env email password s))))
        (login_steps (TIMEOUTS_MEDIUM env) (self s) email password)"
      unfolding navigated(3) by (rule run_calls_added(3))
    show "navigations (login_steps (TIMEOUTS_MEDIUM env) (self s) email password) = []"
      by (simp add: login_steps_def)
  qed
  ultimately show ?thesis
    by (simp add: navigated(2) calls_of_append navigations_append)
qed

lemma exact_button_not_shown:
  "list_all (\<lambda>e. \<not> (el_role e = ''button'' \<and> el_name e = ''Start Shopping'')) (elements b) \<Longrightarrow>
   \<not> shown b (GetByRole pg ''button'' ''Start Shopping'' (Some True))"
  by (auto simp: shown_def list_ex_iff list_all_iff)

lemmas static_defs = static_page_def opened_def LoginPage_constructor_def login_form_def
  shown_def need_def contains_ci_def lower_def

lemmas scripted_defs = scripted_def fresh_def LoginPage_constructor_def added_def

section \<open>The popup dismissal\<close>

text \<open>
  Claim C1. Whatever the session does (popup there, not there, or gone between the check
  and the click) and whatever the visibility check, the click or the hidden-wait throws,
  \<open>maybeCloseWelcomePopup\<close> returns normally. At most one of its calls fails, since the
  first failure ends the attempt, and each failure is logged as one warning,
  "Welcome popup handling failed", whose payload is the reason: under the key \<open>error\<close>,
  the message of the error when an \<open>Error\<close> instance was thrown, and the thrown value as
  a string otherwise. Nothing else is logged.
\<close>

theorem maybeCloseWelcomePopup_never_raises:
  "fst (maybeCloseWelcomePopup env s) = Inr () \<and>
   length (failures_of (added s (snd (maybeCloseWelcomePopup env s)))) \<le> 1 \<and>
   warnings_of (added s (snd (maybeCloseWelcomePopup env s))) =
     map (\<lambda>(c, e).
            (''Welcome popup handling failed'',
             [(''error'', case e of ErrorInstance message \<Rightarrow> message | NonError rendered \<Rightarrow> rendered)]))
       (failures_of (added s (snd (maybeCloseWelcomePopup env s))))"
  by (simp add: maybeCloseWelcomePopup_def run_defs added_def
      split: prod.splits sum.splits thrown.splits)

text \<open>
  Scripted sessions in which the visibility check, the click and the hidden-wait throw in
  turn, one in which a value that is not an \<open>Error\<close> is thrown, and one in which nothing
  fails: the operation returns normally each time, and the warning carries the very
  message that was thrown.
\<close>

theorem maybeCloseWelcomePopup_never_raises_witness:
  "maybeCloseWelcomePopup scripted (fresh [Inl (ErrorInstance ''element is not attached'')]) =
     (Inr (), (fresh [Inl (ErrorInstance ''element is not attached'')])
        \<lparr>world := [],
         events :=
           [Called (LocatorIsVisible (GetByRole 0 ''button'' ''Start Shopping'' (Some True)))
              (Inl (ErrorInstance ''element is not attached'')),
            LoggedWarn ''Welcome popup handling failed'' [(''error'', ''element is not attached'')]]\<rparr>) \<and>
   warnings_of (added (fresh [Inr (Boolean True), Inl (ErrorInstance ''click intercepted'')])
      (snd (maybeCloseWelcomePopup scripted
              (fresh [Inr (Boolean True), Inl (ErrorInstance ''click intercepted'')])))) =
     [(''Welcome popup handling failed'', [(''error'', ''click intercepted'')])] \<and>
   warnings_of (added (fresh [Inr (Boolean True), Inr Undefined, Inl (ErrorInstance ''Timed out 10000ms'')])
      (snd (maybeCloseWelcomePopup scripted
              (fresh [Inr (Boolean True), Inr Undefined, Inl (ErrorInstance ''Timed out 10000ms'')])))) =
     [(''Welcome popup handling failed'', [(''error'', ''Timed out 10000ms'')])] \<and>
   warnings_of (added (fresh [Inl (NonError ''42'')])
      (snd (maybeCloseWelcomePopup scripted (fresh [Inl (NonError ''42'')])))) =
     [(''Welcome popup handling failed'', [(''error'', ''42'')])] \<and>
   warnings_of (added (fresh [Inr (Boolean True), Inr Undefined, Inr Undefined])
      (snd (maybeCloseWelcomePopup scripted
              (fresh [Inr (Boolean True), Inr Undefined, Inr Undefined])))) = []"
proof -
  let ?a = "fresh [Inl (ErrorInstance ''element is not attached'')]"
  let ?b = "fresh [Inr (Boolean True), Inl (ErrorInstance ''click intercepted'')]"
  let ?c = "fresh [Inr (Boolean True), Inr Undefined, Inl (ErrorInstance ''Timed out 10000ms'')]"
  let ?d = "fresh [Inl (NonError ''42'')]"
  let ?e = "fresh [Inr (Boolean True), Inr Undefined, Inr Undefined]"
  have fa: "failures_of (added ?a (snd (maybeCloseWelcomePopup scripted ?a))) =
      [(LocatorIsVisible (GetByRole 0 ''button'' ''Start Shopping'' (Some True)),
        ErrorInstance ''element is not attached'')]"
    by (simp add: maybeCloseWelcomePopup_def run_defs scripted_defs)
  have fb: "failures_of (added ?b (snd (maybeCloseWelcomePopup scripted ?b))) =
      [(LocatorClick (GetByRole 0 ''button'' ''Start Shopping'' (Some True)),
        ErrorInstance ''click intercepted'')]"
    by (simp add: maybeCloseWelcomePopup_def run_defs scripted_defs)
  have fc: "failures_of (added ?c (snd (maybeCloseWelcomePopup scripted ?c))) =
      [(ExpectToBeHidden (GetByRole 0 ''button'' ''Start Shopping'' (Some True)) (Some 10000),
        ErrorInstance ''Timed out 10000ms'')]"
    by (simp add: maybeCloseWelcomePopup_def run_defs scripted_defs)
  have fd: "failures_of (added ?d (snd (maybeCloseWelcomePopup scripted ?d))) =
      [(LocatorIsVisible (GetByRole 0 ''button'' ''Start Shopping'' (Some True)), NonError ''42'')]"
    by (simp add: maybeCloseWelcomePopup_def run_defs scripted_defs)
  have fe: "failures_of (added ?e (snd (maybeCloseWelcomePopup scripted ?e))) = []"
    by (simp add: maybeCloseWelcomePopup_def run_defs scripted_defs)
  have ea: "events (snd (maybeCloseWelcomePopup scripted ?a)) =
      [Called (LocatorIsVisible (GetByRole 0 ''button'' ''Start Shopping'' (Some True)))
         (Inl (ErrorInstance ''element is not attached'')),
       LoggedWarn ''Welcome popup handling failed'' [(''error'', ''element is not attached'')]] \<and>
     world (snd (maybeCloseWelcomePopup scripted ?a)) = [] \<and>
     self (snd (maybeCloseWelcomePopup scripted ?a)) = self ?a"
    by (simp add: maybeCloseWelcomePopup_def run_defs scripted_defs)
  have wa: "maybeCloseWelcomePopup scripted ?a =
     (Inr (), ?a\<lparr>world := [], events := events (snd (maybeCloseWelcomePopup scripted ?a))\<rparr>)"
    using maybeCloseWelcomePopup_never_raises [where env = scripted and s = ?a] ea
    by (cases "maybeCloseWelcomePopup scripted ?a") simp
  show ?thesis
    using maybeCloseWelcomePopup_never_raises [where env = scripted and s = ?b] maybeCloseWelcomePopup_never_raises [where env = scripted and s = ?c]
      maybeCloseWelcomePopup_never_raises [where env = scripted and s = ?d] maybeCloseWelcomePopup_never_raises [where env = scripted and s = ?e]
      wa ea fb fc fd fe
    by simp
qed

text \<open>
  Claim C5. The first thing the dismissal does is ask \<open>isVisible\<close> of the popup-dismiss
  button, a query that takes no timeout. If the answer is true, the next call is the
  click on that button, and if the click returns, the call after it is the wait for the
  button to be hidden, bounded by \<open>TIMEOUTS.MEDIUM\<close>. If the answer is not true, the
  operation returns at once: the query is its only event, and there is no click and no
  wait.
\<close>

theorem popup_dismissal_by_visibility:
  "respond env (world s) (LocatorIsVisible (startShoppingButton (self s))) = (Inr v, w1) \<Longrightarrow>
   (truthy v \<longrightarrow>
      take 2 (calls_of (added s (snd (maybeCloseWelcomePopup env s)))) =
        [LocatorIsVisible (startShoppingButton (self s)),
         LocatorClick (startShoppingButton (self s))] \<and>
      (\<forall>u w2. respond env w1 (LocatorClick (startShoppingButton (self s))) = (Inr u, w2) \<longrightarrow>
         calls_of (added s (snd (maybeCloseWelcomePopup env s))) =
           [LocatorIsVisible (startShoppingButton (self s)),
            LocatorClick (startShoppingButton (self s)),
            ExpectToBeHidden (startShoppingButton (self s)) (Some (TIMEOUTS_MEDIUM env))])) \<and>
   (\<not> truthy v \<longrightarrow>
      maybeCloseWelcomePopup env s =
        (Inr (), s\<lparr>world := w1,
                   events := events s @
                     [Called (LocatorIsVisible (startShoppingButton (self s))) (Inr v)]\<rparr>))"
  by (auto simp: maybeCloseWelcomePopup_def run_defs added_def split: prod.splits sum.splits)

text \<open>
  A scripted session where the button is visible and the click returns: query, click,
  bounded hidden-wait. And one where the button is not visible: the query alone.
\<close>

theorem popup_dismissal_by_visibility_witness:
  "respond scripted (world (fresh [Inr (Boolean True), Inr Undefined, Inr Undefined]))
     (LocatorIsVisible
        (startShoppingButton (self (fresh [Inr (Boolean True), Inr Undefined, Inr Undefined])))) =
     (Inr (Boolean True), [Inr Undefined, Inr Undefined]) \<and>
   truthy (Boolean True) \<and>
   respond scripted [Inr Undefined, Inr Undefined]
     (LocatorClick
        (startShoppingButton (self (fresh [Inr (Boolean True), Inr Undefined, Inr Undefined])))) =
     (Inr Undefined, [Inr Undefined]) \<and>
   calls_of (added (fresh [Inr (Boolean True), Inr Undefined, Inr Undefined])
      (snd (maybeCloseWelcomePopup scripted
              (fresh [Inr (Boolean True), Inr Undefined, Inr Undefined])))) =
     [LocatorIsVisible (GetByRole 0 ''button'' ''Start Shopping'' (Some True)),
      LocatorClick (GetByRole 0 ''button'' ''Start Shopping'' (Some True)),
      ExpectToBeHidden (GetByRole 0 ''button'' ''Start Shopping'' (Some True)) (Some 10000)] \<and>
   respond scripted (world (fresh [Inr (Boolean False)]))
     (LocatorIsVisible (startShoppingButton (self (fresh [Inr (Boolean False)])))) =
     (Inr (Boolean False), []) \<and>
   \<not> truthy (Boolean False) \<and>
   maybeCloseWelcomePopup scripted (fresh [Inr (Boolean False)]) =
     (Inr (), (fresh [Inr (Boolean False)])
        \<lparr>world := [],
         events := [Called (LocatorIsVisible (GetByRole 0 ''button'' ''Start Shopping'' (Some True)))
                      (Inr (Boolean False))]\<rparr>)"
proof -
  let ?s = "fresh [Inr (Boolean True), Inr Undefined, Inr Undefined]"
  let ?t = "fresh [Inr (Boolean False)]"
  have a: "respond scripted (world ?s) (LocatorIsVisible (startShoppingButton (self ?s))) =
      (Inr (Boolean True), [Inr Undefined, Inr Undefined])"
    by (simp add: scripted_defs)
  have b: "respond scripted [Inr Undefined, Inr Undefined]
      (LocatorClick (startShoppingButton (self ?s))) = (Inr Undefined, [Inr Undefined])"
    by (simp add: scripted_defs)
  have c: "respond scripted (world ?t) (LocatorIsVisible (startShoppingButton (self ?t))) =
      (Inr (Boolean False), [])"
    by (simp add: scripted_defs)
  from popup_dismissal_by_visibility [OF a] b
  have "calls_of (added ?s (snd (maybeCloseWelcomePopup scripted ?s))) =
      [LocatorIsVisible (startShoppingButton (self ?s)),
       LocatorClick (startShoppingButton (self ?s)),
       ExpectToBeHidden (startShoppingButton (self ?s)) (Some (TIMEOUTS_MEDIUM scripted))]"
    by simp
  moreover from popup_dismissal_by_visibility [OF c]
  have "maybeCloseWelcomePopup scripted ?t =
      (Inr (), ?t\<lparr>world := [],
         events := events ?t @
           [Called (LocatorIsVisible (startShoppingButton (self ?t))) (Inr (Boolean False))]\<rparr>)"
    by simp
  ultimately show ?thesis
    using a b c by (simp add: scripted_defs)
qed

section \<open>The object\<close>

text \<open>
  Claim C8. The page object holds no mutable state. The constructor sets the session
  handle and the six locators, and after \<open>goto\<close>,
  \<open>maybeCloseWelcomePopup\<close>, \<open>login\<close>, \<open>expectErrorVisible\<close> or \<open>expectStillOnLoginPage\<close>,
  whatever the session answered and whether the operation returned or raised, the object
  is the one the operation started with: the same session handle and the same six
  locators, as the constructor set them.
\<close>

theorem page_object_is_never_modified:
  "self (snd (LoginPage_constructor env pg w evs)) =
     \<lparr>page = pg,
      loginTab = GetByRole pg ''tab'' ''Log in'' None,
      emailInput = GetByRole pg ''textbox'' ''Email'' None,
      passwordInput = GetByRole pg ''textbox'' ''Password'' None,
      loginButton = GetByRole pg ''button'' ''Log in'' None,
      errorMessage = GetByText pg (ERROR_MESSAGES_INVALID_LOGIN env),
      startShoppingButton = GetByRole pg ''button'' ''Start Shopping'' (Some True)\<rparr> \<and>
   self (snd (goto env s)) = self s \<and>
   self (snd (maybeCloseWelcomePopup env s)) = self s \<and>
   self (snd (login env email password s)) = self s \<and>
   self (snd (expectErrorVisible env s)) = self s \<and>
   self (snd (expectStillOnLoginPage env s)) = self s"
proof -
  have popup: "self (snd (maybeCloseWelcomePopup env t)) = self t" for t
    using maybe_self [of env t] by (cases "maybeCloseWelcomePopup env t") simp
  have g: "self (snd (goto env s)) = self s"
    unfolding goto_run by (rule run_calls_self)
  have e: "self (snd (expectErrorVisible env s)) = self s"
    unfolding expectErrorVisible_run by (rule run_calls_self)
  have p: "self (snd (expectStillOnLoginPage env s)) = self s"
    unfolding expectStillOnLoginPage_run by (rule run_calls_self)
  have l: "self (snd (login env email password s)) = self s"
  proof (cases "library_call env (PageGoto (page (self s)) ''/login'' (Some ''domcontentloaded'')) s")
    case (Pair r s1)
    have s1: "self s1 = self s" using Pair by (rule library_call_self)
    show ?thesis
    proof (cases r)
      case (Inl x)
      with Pair s1 show ?thesis by (simp add: login_run)
    next
      case (Inr v)
      with Pair s1 popup [of s1] show ?thesis by (simp add: login_run run_calls_self)
    qed
  qed
  from g popup [of s] l e p show ?thesis by (simp add: LoginPage_constructor_def)
qed

section \<open>Logging in\<close>

text \<open>
  Claim C2. For every email and password, the calls \<open>login\<close> makes are an initial
  segment of this sequence, and the whole of it when \<open>login\<close> returns normally: the
  navigation to \<open>/login\<close> with \<open>waitUntil: domcontentloaded\<close>; the calls of the popup
  dismissal (an initial segment of: visibility query, click, bounded hidden-wait); the
  wait for the login tab bounded by \<open>TIMEOUTS.MEDIUM\<close>; the click on the login tab; the
  wait for the email field bounded by \<open>TIMEOUTS.MEDIUM\<close>; the wait for the password field
  with no timeout given; the fill of the email field with the email; the fill of the
  password field with the password; the click on the login button. The click on the
  login button is the last call: nothing waits for the outcome of the submission.
\<close>

theorem login_performs_the_sequence:
  fixes env :: "('w, 'p) environment" and s email password
  defines "lp \<equiv> self s"
  defines "s1 \<equiv> snd (library_call env (PageGoto (page lp) ''/login'' (Some ''domcontentloaded'')) s)"
  defines "popup \<equiv> calls_of (added s1 (snd (maybeCloseWelcomePopup env s1)))"
  defines "calls \<equiv> calls_of (added s (snd (login env email password s)))"
  defines "sequence \<equiv>
     PageGoto (page lp) ''/login'' (Some ''domcontentloaded'') #
     popup @
     [ExpectToBeVisible (loginTab lp) (Some (TIMEOUTS_MEDIUM env)),
      LocatorClick (loginTab lp),
      ExpectToBeVisible (emailInput lp) (Some (TIMEOUTS_MEDIUM env)),
      ExpectToBeVisible (passwordInput lp) None,
      LocatorFill (emailInput lp) email,
      LocatorFill (passwordInput lp) password,
      LocatorClick (loginButton lp)]"
  shows "prefix popup
           [LocatorIsVisible (startShoppingButton lp),
            LocatorClick (startShoppingButton lp),
            ExpectToBeHidden (startShoppingButton lp) (Some (TIMEOUTS_MEDIUM env))] \<and>
         prefix calls sequence \<and>
         (fst (login env email password s) = Inr () \<longrightarrow> calls = sequence)"
  unfolding lp_def s1_def popup_def calls_def sequence_def
  by (rule login_calls)

text \<open>
  A scripted session in which every call returns and the popup is visible: eleven calls,
  the last one the click on the login button.
\<close>

theorem login_performs_the_sequence_witness:
  "fst (login scripted ''user@example.com'' ''secret''
          (fresh [Inr Undefined, Inr (Boolean True), Inr Undefined, Inr Undefined])) = Inr () \<and>
   calls_of (added (fresh [Inr Undefined, Inr (Boolean True), Inr Undefined, Inr Undefined])
      (snd (login scripted ''user@example.com'' ''secret''
              (fresh [Inr Undefined, Inr (Boolean True), Inr Undefined, Inr Undefined])))) =
     [PageGoto 0 ''/login'' (Some ''domcontentloaded''),
      LocatorIsVisible (GetByRole 0 ''button'' ''Start Shopping'' (Some True)),
      LocatorClick (GetByRole 0 ''button'' ''Start Shopping'' (Some True)),
      ExpectToBeHidden (GetByRole 0 ''button'' ''Start Shopping'' (Some True)) (Some 10000),
      ExpectToBeVisible (GetByRole 0 ''tab'' ''Log in'' None) (Some 10000),
      LocatorClick (GetByRole 0 ''tab'' ''Log in'' None),
      ExpectToBeVisible (GetByRole 0 ''textbox'' ''Email'' None) (Some 10000),
      ExpectToBeVisible (GetByRole 0 ''textbox'' ''Password'' None) None,
      LocatorFill (GetByRole 0 ''textbox'' ''Email'' None) ''user@example.com'',
      LocatorFill (GetByRole 0 ''textbox'' ''Password'' None) ''secret'',
      LocatorClick (GetByRole 0 ''button'' ''Log in'' None)]"
proof -
  let ?s = "fresh [Inr Undefined, Inr (Boolean True), Inr Undefined, Inr Undefined]"
  have ok: "fst (login scripted ''user@example.com'' ''secret'' ?s) = Inr ()"
    by (simp add: login_def maybeCloseWelcomePopup_def run_defs scripted_defs)
  have popup: "calls_of (added
       (snd (library_call scripted (PageGoto (page (self ?s)) ''/login'' (Some ''domcontentloaded'')) ?s))
       (snd (maybeCloseWelcomePopup scripted
          (snd (library_call scripted (PageGoto (page (self ?s)) ''/login'' (Some ''domcontentloaded'')) ?s))))) =
     [LocatorIsVisible (GetByRole 0 ''button'' ''Start Shopping'' (Some True)),
      LocatorClick (GetByRole 0 ''button'' ''Start Shopping'' (Some True)),
      ExpectToBeHidden (GetByRole 0 ''button'' ''Start Shopping'' (Some True)) (Some 10000)]"
    by (simp add: maybeCloseWelcomePopup_def run_defs scripted_defs)
  from login_performs_the_sequence
    [where env = scripted and email = "''user@example.com''" and password = "''secret''" and s = ?s] ok
  have "calls_of (added ?s (snd (login scripted ''user@example.com'' ''secret'' ?s))) =
     PageGoto (page (self ?s)) ''/login'' (Some ''domcontentloaded'') #
     calls_of (added
       (snd (library_call scripted (PageGoto (page (self ?s)) ''/login'' (Some ''domcontentloaded'')) ?s))
       (snd (maybeCloseWelcomePopup scripted
          (snd (library_call scripted (PageGoto (page (self ?s)) ''/login'' (Some ''domcontentloaded'')) ?s))))) @
     [ExpectToBeVisible (loginTab (self ?s)) (Some (TIMEOUTS_MEDIUM scripted)),
      LocatorClick (loginTab (self ?s)),
      ExpectToBeVisible (emailInput (self ?s)) (Some (TIMEOUTS_MEDIUM scripted)),
      ExpectToBeVisible (passwordInput (self ?s)) None,
      LocatorFill (emailInput (self ?s)) ''user@example.com'',
      LocatorFill (passwordInput (self ?s)) ''secret'',
      LocatorClick (loginButton (self ?s))]"
    by blast
  then show ?thesis
    unfolding popup using ok by (simp add: scripted_def fresh_def LoginPage_constructor_def)
qed

section \<open>The assertion helpers\<close>



text \<open>
  Claim C7. \<open>expectStillOnLoginPage\<close> checks, in this order, that the login tab is
  visible (bounded by \<open>TIMEOUTS.MEDIUM\<close>), that the email field is visible and that
  the password field is visible (both with no timeout given). The checks it makes are an
  initial segment of these three; it returns normally exactly when all three were made
  and none failed; and when a check fails, the operation raises what the check threw and
  makes no further check.
\<close>

theorem expectStillOnLoginPage_checks_in_order:
  fixes env :: "('w, 'p) environment" and s
  defines "checks \<equiv>
     [ExpectToBeVisible (loginTab (self s)) (Some (TIMEOUTS_MEDIUM env)),
      ExpectToBeVisible (emailInput (self s)) None,
      ExpectToBeVisible (passwordInput (self s)) None]"
  defines "es \<equiv> added s (snd (expectStillOnLoginPage env s))"
  shows "prefix (calls_of es) checks \<and>
         propagated (fst (expectStillOnLoginPage env s)) es \<and>
         (fst (expectStillOnLoginPage env s) = Inr ()) = (calls_of es = checks \<and> failures_of es = [])"
proof -
  have run: "expectStillOnLoginPage env s = run_calls env checks s"
    unfolding checks_def by (rule expectStillOnLoginPage_run)
  have a: "prefix (calls_of es) checks"
    unfolding es_def run by (rule run_calls_added(3))
  have b: "propagated (fst (expectStillOnLoginPage env s)) es"
    unfolding es_def run by (rule run_calls_propagated)
  have c: "calls_of es = checks \<and> failures_of es = []" if "fst (expectStillOnLoginPage env s) = Inr ()"
    using that run_calls_added(4) [where env = env and cs = checks and s = s and u = "()"]
    unfolding es_def run by simp
  have d: "fst (expectStillOnLoginPage env s) = Inr ()" if "failures_of es = []"
  proof (cases "fst (expectStillOnLoginPage env s)")
    case (Inl e)
    with b that show ?thesis
      by (cases es rule: rev_cases) (auto simp: propagated_def failures_of_append elim: raised_by.elims)
  next
    case (Inr u)
    then show ?thesis by simp
  qed
  from a b c d show ?thesis by blast
qed

section \<open>Construction\<close>

text \<open>
  Claim C3, as stated: the constructor binds seven named locators. It binds six: of the
  seven fields of the object, six are locators and one is the session handle.
\<close>

theorem constructor_seven_locators_counterexample:
  "length (locators_of (self (snd (LoginPage_constructor scripted 0 [] [])))) \<noteq> 7"
  by (simp add: locators_of_def)

text \<open>
  Claim C3, amended. For every session handle, the constructor returns normally, leaves
  the session and the events as they were (no call into the library), keeps the handle,
  and binds six locators: login tab, email field, password field, login button,
  error-message text and "Start Shopping" popup-dismiss button. With the handle, the
  object has seven fields.
\<close>

theorem constructor_binds_six_locators:
  "fst (LoginPage_constructor env pg w evs) = Inr () \<and>
   world (snd (LoginPage_constructor env pg w evs)) = w \<and>
   events (snd (LoginPage_constructor env pg w evs)) = evs \<and>
   page (self (snd (LoginPage_constructor env pg w evs))) = pg \<and>
   locators_of (self (snd (LoginPage_constructor env pg w evs))) =
     [GetByRole pg ''tab'' ''Log in'' None,
      GetByRole pg ''textbox'' ''Email'' None,
      GetByRole pg ''textbox'' ''Password'' None,
      GetByRole pg ''button'' ''Log in'' None,
      GetByText pg (ERROR_MESSAGES_INVALID_LOGIN env),
      GetByRole pg ''button'' ''Start Shopping'' (Some True)] \<and>
   length (locators_of (self (snd (LoginPage_constructor env pg w evs)))) = 6"
  by (simp add: LoginPage_constructor_def locators_of_def)

section \<open>Failures\<close>

text \<open>
  Claim C4. Every operation but the popup dismissal propagates a failure unchanged, once:
  \<open>goto\<close>, \<open>expectErrorVisible\<close> and \<open>expectStillOnLoginPage\<close> log no warning, return
  normally only if none of their calls failed, and when they raise, what they raise is
  what their last call threw, no call before it having failed. So no call follows a
  failed one: nothing is retried and nothing is done instead. The same holds of \<open>login\<close>
  for its own calls: if the navigation fails, \<open>login\<close> raises that error and stops there;
  otherwise its events are the navigation, then those of the popup dismissal, then those
  of its seven steps, and the result of \<open>login\<close> is propagated from these steps in the same
  sense. No operation makes more calls than it has call sites (one, one, three, eleven),
  and every timeout passed to a wait is \<open>TIMEOUTS.MEDIUM\<close>.
\<close>

theorem failures_propagate_without_retry:
  fixes env :: "('w, 'p) environment" and s email password
  defines "nav \<equiv> PageGoto (page (self s)) ''/login'' (Some ''domcontentloaded'')"
  defines "s1 \<equiv> snd (library_call env nav s)"
  defines "s2 \<equiv> snd (maybeCloseWelcomePopup env s1)"
  defines "s' \<equiv> snd (login env email password s)"
  shows
    "propagated (fst (goto env s)) (added s (snd (goto env s))) \<and>
     propagated (fst (expectErrorVisible env s)) (added s (snd (expectErrorVisible env s))) \<and>
     propagated (fst (expectStillOnLoginPage env s))
       (added s (snd (expectStillOnLoginPage env s))) \<and>
     (case fst (library_call env nav s) of
        Inl e \<Rightarrow> login env email password s = (Inl e, s1) \<and> propagated (Inl e) (added s s1)
      | Inr v \<Rightarrow>
          added s s' = Called nav (Inr v) # added s1 s2 @ added s2 s' \<and>
          propagated (fst (login env email password s)) (added s2 s')) \<and>
     length (calls_of (added s (snd (goto env s)))) = 1 \<and>
     length (calls_of (added s (snd (expectErrorVisible env s)))) = 1 \<and>
     length (calls_of (added s (snd (expectStillOnLoginPage env s)))) \<le> 3 \<and>
     length (calls_of (added s s')) \<le> 11 \<and>
     set (explicit_timeouts (calls_of (added s (snd (goto env s))))) \<subseteq> {TIMEOUTS_MEDIUM env} \<and>
     set (explicit_timeouts (calls_of (added s (snd (expectErrorVisible env s))))) \<subseteq>
       {TIMEOUTS_MEDIUM env} \<and>
     set (explicit_timeouts (calls_of (added s (snd (expectStillOnLoginPage env s))))) \<subseteq>
       {TIMEOUTS_MEDIUM env} \<and>
     set (explicit_timeouts (calls_of (added s s'))) \<subseteq> {TIMEOUTS_MEDIUM env}"
proof -
  let ?steps = "login_steps (TIMEOUTS_MEDIUM env) (self s) email password"
  have g: "propagated (fst (goto env s)) (added s (snd (goto env s)))"
    unfolding goto_run by (rule run_calls_propagated)
  have e: "propagated (fst (expectErrorVisible env s)) (added s (snd (expectErrorVisible env s)))"
    unfolding expectErrorVisible_run by (rule run_calls_propagated)
  have p: "propagated (fst (expectStillOnLoginPage env s))
       (added s (snd (expectStillOnLoginPage env s)))"
    unfolding expectStillOnLoginPage_run by (rule run_calls_propagated)
  have pl: "length (calls_of (added s (snd (expectStillOnLoginPage env s)))) \<le> 3"
    using prefix_length_le [OF expectStillOnLoginPage_calls [of s env]] by simp
  have pt: "set (explicit_timeouts (calls_of (added s (snd (expectStillOnLoginPage env s))))) \<subseteq>
       {TIMEOUTS_MEDIUM env}"
    using explicit_timeouts_prefix [OF expectStillOnLoginPage_calls [of s env]] by simp
  have l: "(case fst (library_call env nav s) of
        Inl e \<Rightarrow> login env email password s = (Inl e, s1) \<and> propagated (Inl e) (added s s1)
      | Inr v \<Rightarrow>
          added s s' = Called nav (Inr v) # added s1 s2 @ added s2 s' \<and>
          propagated (fst (login env email password s)) (added s2 s')) \<and>
     length (calls_of (added s s')) \<le> 11 \<and>
     set (explicit_timeouts (calls_of (added s s'))) \<subseteq> {TIMEOUTS_MEDIUM env}"
  proof (cases rule: login_cases [of env s email password])
    case (navigation_failed e)
    then show ?thesis
      by (simp add: nav_def s1_def s'_def propagated_def)
  next
    case (navigated v)
    have run: "login env email password s = run_calls env ?steps s2"
      using navigated(3) by (simp add: s2_def s1_def nav_def)
    have shape: "added s s' = Called nav (Inr v) # added s1 s2 @ added s2 s'"
      using navigated(2) by (simp add: s'_def s2_def s1_def nav_def)
    have pr: "propagated (fst (login env email password s)) (added s2 s')"
      unfolding s'_def run by (rule run_calls_propagated)
    have rest: "prefix (calls_of (added s2 s')) ?steps"
      unfolding s'_def run by (rule run_calls_added(3))
    have "length (calls_of (added s s')) \<le> 11"
      using maybe_length [of s1 env] login_steps_length [OF rest]
      by (simp add: shape calls_of_append s2_def)
    moreover have "set (explicit_timeouts (calls_of (added s s'))) \<subseteq> {TIMEOUTS_MEDIUM env}"
      using maybe_timeouts [of s1 env] login_steps_timeouts [OF rest]
      by (simp add: shape calls_of_append explicit_timeouts_append s2_def nav_def)
    ultimately show ?thesis
      using navigated(1) shape pr by (simp add: nav_def)
  qed
  from g e p l pl pt show ?thesis
    by (simp add: goto_calls expectErrorVisible_calls)
qed

section \<open>The two navigations\<close>

text \<open>
  Claim C9. \<open>goto\<close> and the first step of \<open>login\<close> are not the same operation. \<open>goto\<close>
  makes one call, the navigation to \<open>/login\<close> with no option, so that the library's default
  wait condition applies. \<open>login\<close> makes exactly one navigation, to \<open>/login\<close> with
  \<open>waitUntil: domcontentloaded\<close>, whatever the session answers; it never makes the
  navigation of \<open>goto\<close>. And the two complete under different conditions: on a static
  login page whose \<open>load\<close> event does not fire in time, \<open>goto\<close> raises the navigation
  timeout while \<open>login\<close> navigates, fills the form and returns normally.
\<close>

theorem goto_and_login_navigate_differently:
  "calls_of (added s (snd (goto env s))) = [PageGoto (page (self s)) ''/login'' None] \<and>
   navigations (calls_of (added s (snd (goto env s)))) = [(''/login'', None)] \<and>
   navigations (calls_of (added s (snd (login env email password s)))) =
     [(''/login'', Some ''domcontentloaded'')] \<and>
   fst (goto static_page (opened \<lparr>elements = login_form, load_fires = False\<rparr>)) =
     Inl (ErrorInstance ''page.goto: Timeout exceeded'') \<and>
   fst (login static_page ''user@example.com'' ''secret''
          (opened \<lparr>elements = login_form, load_fires = False\<rparr>)) = Inr ()"
proof -
  have a: "fst (goto static_page (opened \<lparr>elements = login_form, load_fires = False\<rparr>)) =
     Inl (ErrorInstance ''page.goto: Timeout exceeded'')"
    by (simp add: goto_def run_defs static_defs)
  have b: "fst (login static_page ''user@example.com'' ''secret''
          (opened \<lparr>elements = login_form, load_fires = False\<rparr>)) = Inr ()"
    by (simp add: login_def maybeCloseWelcomePopup_def run_defs static_defs)
  show ?thesis
    using a b by (simp add: goto_calls login_navigations)
qed

section \<open>Exact and non-exact names\<close>

text \<open>
  Claim C10. Of the six locators of a constructed page object, the popup-dismiss locator
  is the only one built with \<open>exact: true\<close>: the login tab, the two fields and the login
  button are role locators with no \<open>exact\<close> option. On a static page, the popup-dismiss
  locator matches an element exactly when it is a button whose accessible name is
  "Start Shopping". So on a page with no button of exactly that name, the popup
  dismissal sees the answer false to its visibility query and does nothing more: no
  click, no wait, no warning.
\<close>

theorem only_the_popup_locator_is_exact:
  "filter exact_name (locators_of (self (snd (LoginPage_constructor env pg w evs)))) =
     [startShoppingButton (self (snd (LoginPage_constructor env pg w evs)))] \<and>
   startShoppingButton (self (snd (LoginPage_constructor env pg w evs))) =
     GetByRole pg ''button'' ''Start Shopping'' (Some True) \<and>
   matches (GetByRole pg ''button'' ''Start Shopping'' (Some True)) e =
     (el_role e = ''button'' \<and> el_name e = ''Start Shopping'') \<and>
   (list_all (\<lambda>e. \<not> (el_role e = ''button'' \<and> el_name e = ''Start Shopping'')) (elements b) \<longrightarrow>
      maybeCloseWelcomePopup static_page (opened b) =
        (Inr (), (opened b)
           \<lparr>events := [Called (LocatorIsVisible (GetByRole 0 ''button'' ''Start Shopping'' (Some True)))
                         (Inr (Boolean False))]\<rparr>))"
proof -
  have "maybeCloseWelcomePopup static_page (opened b) =
        (Inr (), (opened b)
           \<lparr>events := [Called (LocatorIsVisible (GetByRole 0 ''button'' ''Start Shopping'' (Some True)))
                         (Inr (Boolean False))]\<rparr>)"
    if "list_all (\<lambda>e. \<not> (el_role e = ''button'' \<and> el_name e = ''Start Shopping'')) (elements b)"
    using exact_button_not_shown [OF that, where pg = "0::nat"]
    by (simp add: maybeCloseWelcomePopup_def run_defs static_page_def opened_def
        LoginPage_constructor_def)
  then show ?thesis
    by (auto simp add: LoginPage_constructor_def locators_of_def)
qed

text \<open>
  A page with a visible button named "Start Shopping Now": a locator without \<open>exact\<close>
  would match it, the popup-dismiss locator does not, and the dismissal makes the
  visibility query only.
\<close>

theorem only_the_popup_locator_is_exact_witness:
  "list_all (\<lambda>e. \<not> (el_role e = ''button'' \<and> el_name e = ''Start Shopping''))
     (elements \<lparr>elements =
        \<lparr>el_role = ''button'', el_name = ''Start Shopping Now'', el_text = ''Start Shopping Now'',
          el_visible = True\<rparr> # login_form, load_fires = True\<rparr>) \<and>
   matches (GetByRole (0::nat) ''button'' ''Start Shopping'' None)
     \<lparr>el_role = ''button'', el_name = ''Start Shopping Now'', el_text = ''Start Shopping Now'',
       el_visible = True\<rparr> \<and>
   \<not> matches (GetByRole (0::nat) ''button'' ''Start Shopping'' (Some True))
     \<lparr>el_role = ''button'', el_name = ''Start Shopping Now'', el_text = ''Start Shopping Now'',
       el_visible = True\<rparr> \<and>
   calls_of (events (snd (maybeCloseWelcomePopup static_page
     (opened \<lparr>elements =
        \<lparr>el_role = ''button'', el_name = ''Start Shopping Now'', el_text = ''Start Shopping Now'',
          el_visible = True\<rparr> # login_form, load_fires = True\<rparr>)))) =
     [LocatorIsVisible (GetByRole 0 ''button'' ''Start Shopping'' (Some True))]"
proof -
  let ?b = "\<lparr>elements =
        \<lparr>el_role = ''button'', el_name = ''Start Shopping Now'', el_text = ''Start Shopping Now'',
          el_visible = True\<rparr> # login_form, load_fires = True\<rparr>"
  let ?e = "\<lparr>el_role = ''button'', el_name = ''Start Shopping Now'', el_text = ''Start Shopping Now'',
       el_visible = True\<rparr>"
  have h: "list_all (\<lambda>e. \<not> (el_role e = ''button'' \<and> el_name e = ''Start Shopping'')) (elements ?b)"
    by (simp add: login_form_def)
  have m: "matches (GetByRole (0::nat) ''button'' ''Start Shopping'' None) ?e"
    by (simp add: contains_ci_def lower_def)
  have n: "\<not> matches (GetByRole (0::nat) ''button'' ''Start Shopping'' (Some True)) ?e"
    by simp
  from only_the_popup_locator_is_exact
    [where b = ?b, THEN conjunct2, THEN conjunct2, THEN conjunct2, THEN mp, OF h]
  have "maybeCloseWelcomePopup static_page (opened ?b) =
        (Inr (), (opened ?b)
           \<lparr>events := [Called (LocatorIsVisible (GetByRole 0 ''button'' ''Start Shopping'' (Some True)))
                         (Inr (Boolean False))]\<rparr>)" .
  then show ?thesis
    using h m n by (simp add: opened_def LoginPage_constructor_def)
qed

end
